theory Spec2Isabelle
  imports
    Complex_Main
    "HOL-Library.Word"
    "HOL-Library.Char_ord"
    "HOL-Library.List_Lexorder"
    "HOL-Library.Multiset"
begin

unbundle bit_operations_syntax

section \<open>The Asante event simulator (src/lib/asante/asanteSimulator.js)\<close>

subsection \<open>Events\<close>

text \<open>
  The JavaScript values an event's \<^verbatim>\<open>normal\<close> and \<^verbatim>\<open>expectedNormal\<close> properties can hold.
  \<open>truthy\<close> is JavaScript's ToBoolean and \<open>strict_eq_zero v\<close> is \<^verbatim>\<open>v === 0\<close>.
\<close>

datatype jsval = JUndefined | JNull | JBool bool | JNum real | JNaN | JStr string

fun truthy :: "jsval \<Rightarrow> bool" where
  "truthy JUndefined = False"
| "truthy JNull = False"
| "truthy (JBool b) = b"
| "truthy (JNum n) = (n \<noteq> 0)"
| "truthy JNaN = False"
| "truthy (JStr s) = (s \<noteq> [])"

fun strict_eq_zero :: "jsval \<Rightarrow> bool" where
  "strict_eq_zero (JNum n) = (n = 0)"
| "strict_eq_zero _ = False"

text \<open>
  An event is a JavaScript object. The simulator reads and writes the properties below; an
  optional property that the object does not have is \<open>None\<close>. \<^verbatim>\<open>time\<close> is a timestamp
  string: the handlers compare two of them with \<^verbatim>\<open>>\<close>, which on strings is the
  lexicographic order (that of \<open>char list\<close> here), and \<^verbatim>\<open>Date.parse\<close> turns one into milliseconds.
  \<open>previous\<close> holds the snapshot of the preceding basal segment, \<open>bolus_field\<close> the
  \<^verbatim>\<open>bolus\<close> property of a wizard event (the name \<open>bolus\<close> is the handler's).
\<close>

datatype event = Event
  (type: string)
  (time: string)
  (duration: "int option")
  (scheduleName: "string option")
  (previous: "event option")
  (normal: "jsval option")
  (expectedNormal: "jsval option")
  (bolus_field: "event option")

text \<open>Reading a property of an object that lacks it gives \<^verbatim>\<open>undefined\<close>.\<close>

definition read_prop :: "jsval option \<Rightarrow> jsval" where
  "read_prop f = (case f of None \<Rightarrow> JUndefined | Some v \<Rightarrow> v)"

subsection \<open>The object builder and lodash\<close>

text \<open>
  Modelled from the spec: the basal events handed to the simulator are builder objects, whose
  methods \<^verbatim>\<open>isAssigned\<close>, \<^verbatim>\<open>with_duration\<close>, \<^verbatim>\<open>with_scheduleName\<close> and \<^verbatim>\<open>done\<close> are
  defined outside the files at hand. Following the spec, \<^verbatim>\<open>isAssigned('duration')\<close> says
  whether the duration is set, the two \<^verbatim>\<open>with_\<close> methods assign the property, and
  \<^verbatim>\<open>done()\<close> returns a plain copy of the object with the properties it has.
\<close>

definition isAssigned_duration :: "event \<Rightarrow> bool" where
  "isAssigned_duration e = (duration e \<noteq> None)"

definition with_duration :: "int \<Rightarrow> event \<Rightarrow> event" where
  "with_duration d e =
     Event (type e) (time e) (Some d) (scheduleName e) (previous e)
       (normal e) (expectedNormal e) (bolus_field e)"

definition with_scheduleName :: "string \<Rightarrow> event \<Rightarrow> event" where
  "with_scheduleName n e =
     Event (type e) (time e) (duration e) (Some n) (previous e)
       (normal e) (expectedNormal e) (bolus_field e)"

definition done_builder :: "event \<Rightarrow> event" where
  "done_builder e = e"

text \<open>The assignment \<^verbatim>\<open>event.previous = p\<close>.\<close>

definition set_previous :: "event \<Rightarrow> event \<Rightarrow> event" where
  "set_previous p e =
     Event (type e) (time e) (duration e) (scheduleName e) (Some p)
       (normal e) (expectedNormal e) (bolus_field e)"

text \<open>lodash's \<^verbatim>\<open>_.omit(o, 'previous')\<close>: a copy of \<open>o\<close> without the property.\<close>

definition omit_previous :: "event \<Rightarrow> event" where
  "omit_previous e =
     Event (type e) (time e) (duration e) (scheduleName e) None
       (normal e) (expectedNormal e) (bolus_field e)"

subsection \<open>The simulator's state and its handlers\<close>

text \<open>
  The closure variables of \<^verbatim>\<open>make\<close>: the accumulated \<^verbatim>\<open>events\<close>, \<^verbatim>\<open>currBasal\<close> and
  \<^verbatim>\<open>currTimestamp\<close> (both \<^verbatim>\<open>null\<close> at first).
\<close>

record sim =
  events :: "event list"
  currBasal :: "event option"
  currTimestamp :: "string option"

text \<open>
  The same variables when the objects live in a store (see the handlers on a store below):
  the objects by address, the next unused address, and addresses where the closure holds
  references.
\<close>

record store =
  objects :: "nat \<rightharpoonup> event"
  next_addr :: nat
  events_at :: "nat list"
  currBasal_at :: "nat option"
  currTimestamp_at :: "string option"

definition make :: sim where
  "make = \<lparr>events = [], currBasal = None, currTimestamp = None\<rparr>"

text \<open>
  The one error the simulator throws, with the two values its message is formatted from. A
  call returns what it threw or returned together with the state it leaves behind, so that
  what a failing call did to the state is part of the model.
\<close>

datatype error = TimestampsOutOfOrder string event

type_synonym 'a outcome = "(error + 'a) \<times> sim"

text \<open>
  \<^verbatim>\<open>currTimestamp > e.time\<close>: with \<^verbatim>\<open>currTimestamp\<close> still \<^verbatim>\<open>null\<close> the comparison is
  numeric, \<^verbatim>\<open>0 > NaN\<close> for a timestamp string, which is false.
\<close>

definition ensureTimestamp :: "sim \<Rightarrow> event \<Rightarrow> event outcome" where
  "ensureTimestamp s e =
     (case currTimestamp s of
        None \<Rightarrow> (Inr e, s\<lparr>currTimestamp := Some (time e)\<rparr>)
      | Some t \<Rightarrow>
          (if t > time e then (Inl (TimestampsOutOfOrder t e), s)
           else (Inr e, s\<lparr>currTimestamp := Some (time e)\<rparr>)))"

definition simpleSimulate :: "sim \<Rightarrow> event \<Rightarrow> unit outcome" where
  "simpleSimulate s e =
     (case ensureTimestamp s e of
        (Inl err, s') \<Rightarrow> (Inl err, s')
      | (Inr _, s') \<Rightarrow> (Inr (), s'\<lparr>events := events s' @ [e]\<rparr>))"

definition alarm :: "sim \<Rightarrow> event \<Rightarrow> unit outcome" where
  "alarm s event = simpleSimulate s event"

text \<open>\<open>parse\<close> is \<^verbatim>\<open>Date.parse\<close>, from a timestamp string to milliseconds.\<close>

definition basal :: "(string \<Rightarrow> int) \<Rightarrow> sim \<Rightarrow> event \<Rightarrow> unit outcome" where
  "basal parse s event =
     (case ensureTimestamp s event of
        (Inl err, s') \<Rightarrow> (Inl err, s')
      | (Inr _, s') \<Rightarrow>
          (case currBasal s' of
             None \<Rightarrow> (Inr (), s'\<lparr>currBasal := Some event\<rparr>)
           | Some cb \<Rightarrow>
               (let cb1 = (if \<not> isAssigned_duration cb
                           then with_duration (parse (time event) - parse (time cb)) cb
                           else cb);
                    cb2 = done_builder (with_scheduleName ''Unknown'' cb1);
                    event' = set_previous (omit_previous cb2) event
                in (Inr (), s'\<lparr>events := events s' @ [cb2], currBasal := Some event'\<rparr>))))"

definition bolus :: "sim \<Rightarrow> event \<Rightarrow> unit outcome" where
  "bolus s event = simpleSimulate s event"

definition changeDeviceTime :: "sim \<Rightarrow> event \<Rightarrow> unit outcome" where
  "changeDeviceTime s event = simpleSimulate s event"

definition changeReservoir :: "sim \<Rightarrow> event \<Rightarrow> unit outcome" where
  "changeReservoir s event = simpleSimulate s event"

definition finalBasal :: "sim \<Rightarrow> unit outcome" where
  "finalBasal s = (Inr (), s)"

definition resume :: "sim \<Rightarrow> event \<Rightarrow> unit outcome" where
  "resume s event = simpleSimulate s event"

definition settings :: "sim \<Rightarrow> event \<Rightarrow> unit outcome" where
  "settings s event = simpleSimulate s event"

definition smbg :: "sim \<Rightarrow> event \<Rightarrow> unit outcome" where
  "smbg s event = simpleSimulate s event"

definition suspend :: "sim \<Rightarrow> event \<Rightarrow> unit outcome" where
  "suspend s event = simpleSimulate s event"

definition wizard :: "sim \<Rightarrow> event \<Rightarrow> unit outcome" where
  "wizard s event = simpleSimulate s event"

text \<open>The ten handlers that take an event.\<close>

definition handlers :: "(string \<Rightarrow> int) \<Rightarrow> (sim \<Rightarrow> event \<Rightarrow> unit outcome) list" where
  "handlers parse =
     [alarm, basal parse, bolus, changeDeviceTime, changeReservoir,
      resume, settings, smbg, suspend, wizard]"

text \<open>
  The predicate of \<^verbatim>\<open>_.filter\<close> in \<^verbatim>\<open>getEvents\<close>. A \<^verbatim>\<open>bolus\<close> property that is missing
  (or \<^verbatim>\<open>null\<close>) makes \<^verbatim>\<open>event.bolus || null\<close> equal to \<^verbatim>\<open>null\<close>.
\<close>

definition keep :: "event \<Rightarrow> bool" where
  "keep event =
     (if type event = ''bolus'' then
        (if strict_eq_zero (read_prop (normal event)) \<and> \<not> truthy (read_prop (expectedNormal event))
         then False else True)
      else if type event = ''wizard'' then
        (case bolus_field event of
           Some b \<Rightarrow>
             (if strict_eq_zero (read_prop (normal b)) \<and> \<not> truthy (read_prop (expectedNormal b))
              then False else True)
         | None \<Rightarrow> True)
      else True)"

text \<open>
  \<^verbatim>\<open>_.sortBy\<close> is lodash's stable sort, ascending in the key; the keys are the time strings,
  compared as strings. \<open>sort_key\<close> is the stable insertion sort of the list library.
\<close>

definition getEvents :: "sim \<Rightarrow> event list" where
  "getEvents s = sort_key time (filter keep (events s))"

subsection \<open>Sequences of calls\<close>

text \<open>
  A caller's session: one call after the other on the same simulator. \<open>feed\<close> gives the
  state the simulator is left in, also past a call that threw (a caller that stops at the
  first error leaves the state of a shorter sequence).
\<close>

datatype call =
    Alarm event | Basal event | Bolus event | ChangeDeviceTime event | ChangeReservoir event
  | FinalBasal | Resume event | Settings event | Smbg event | Suspend event | Wizard event

fun step :: "(string \<Rightarrow> int) \<Rightarrow> sim \<Rightarrow> call \<Rightarrow> unit outcome" where
  "step parse s (Alarm e) = alarm s e"
| "step parse s (Basal e) = basal parse s e"
| "step parse s (Bolus e) = bolus s e"
| "step parse s (ChangeDeviceTime e) = changeDeviceTime s e"
| "step parse s (ChangeReservoir e) = changeReservoir s e"
| "step parse s FinalBasal = finalBasal s"
| "step parse s (Resume e) = resume s e"
| "step parse s (Settings e) = settings s e"
| "step parse s (Smbg e) = smbg s e"
| "step parse s (Suspend e) = suspend s e"
| "step parse s (Wizard e) = wizard s e"

fun feed :: "(string \<Rightarrow> int) \<Rightarrow> sim \<Rightarrow> call list \<Rightarrow> sim" where
  "feed parse s [] = s"
| "feed parse s (c # cs) = feed parse (snd (step parse s c)) cs"


subsection \<open>The handlers on a store of objects\<close>



text \<open>A change of the object at an address (nothing, if there is no object).\<close>

definition change_object :: "store \<Rightarrow> nat \<Rightarrow> (event \<Rightarrow> event) \<Rightarrow> store" where
  "change_object s a f =
     (case objects s a of
        None \<Rightarrow> s
      | Some e \<Rightarrow> s\<lparr>objects := (objects s)(a \<mapsto> f e)\<rparr>)"






















text \<open>The objects that a list of addresses refers to.\<close>

definition objects_of :: "store \<Rightarrow> nat list \<Rightarrow> event list" where
  "objects_of s as = concat (map (\<lambda>a. case objects s a of None \<Rightarrow> [] | Some e \<Rightarrow> [e]) as)"


text \<open>
  Two objects with the same properties, \<^verbatim>\<open>previous\<close> apart; and a bolus record that
  \<^verbatim>\<open>getEvents\<close> takes for empty: \<^verbatim>\<open>normal\<close> is the number 0 and \<^verbatim>\<open>expectedNormal\<close> is
  missing or holds a falsy value.
\<close>

definition same_but_previous :: "event \<Rightarrow> event \<Rightarrow> bool" where
  "same_but_previous a b =
     (type a = type b \<and> time a = time b \<and> duration a = duration b \<and>
      scheduleName a = scheduleName b \<and> normal a = normal b \<and>
      expectedNormal a = expectedNormal b \<and> bolus_field a = bolus_field b)"

definition empty_bolus :: "event \<Rightarrow> bool" where
  "empty_bolus b =
     (normal b = Some (JNum 0) \<and>
      (case expectedNormal b of None \<Rightarrow> True | Some v \<Rightarrow> \<not> truthy v))"

subsection \<open>A session for the examples\<close>

text \<open>
  \<^verbatim>\<open>Date.parse\<close> at the two timestamps of the examples (milliseconds, UTC), half an hour
  apart.
\<close>

definition parse_ex :: "string \<Rightarrow> int" where
  "parse_ex t =
     (if t = ''2014-01-01T00:00:00'' then 1388534400000
      else if t = ''2014-01-01T00:30:00'' then 1388536200000
      else 0)"

definition basal_ex0 :: event where
  "basal_ex0 = Event ''basal'' ''2014-01-01T00:00:00'' None (Some ''Standard'') None None None None"

definition basal_ex1 :: event where
  "basal_ex1 = Event ''basal'' ''2014-01-01T00:30:00'' None None None None None None"

definition bolus_ex :: "jsval \<Rightarrow> jsval option \<Rightarrow> event" where
  "bolus_ex n x = Event ''bolus'' ''2014-01-01T00:30:00'' None None None (Some n) x None"

definition wizard_ex :: "event option \<Rightarrow> event" where
  "wizard_ex b = Event ''wizard'' ''2014-01-01T00:30:00'' None None None None None b"

definition alarm_ex :: event where
  "alarm_ex = Event ''deviceEvent'' ''2014-01-01T00:00:00'' None None None None None None"

definition log_ex :: "event list" where
  "log_ex =
     [bolus_ex (JNum 0) None, bolus_ex (JNum 0) (Some (JNum 2.5)), bolus_ex (JNum 2.5) None,
      wizard_ex None, wizard_ex (Some (bolus_ex (JNum 0) None)), alarm_ex]"

section \<open>The struct codec (src/util.js)\<close>

subsection \<open>Buffers and numbers\<close>

text \<open>
  A buffer is an array of bytes of a fixed length (a typed array): reading past its end gives
  \<^verbatim>\<open>undefined\<close>, a write past its end is dropped, and a stored number is reduced to its low
  eight bits. A number is an integer, or \<open>None\<close> for \<^verbatim>\<open>undefined\<close> and \<^verbatim>\<open>NaN\<close>, which the
  arithmetic below does not tell apart.
\<close>

type_synonym bytes = "8 word list"

type_synonym number = "int option"

definition rd :: "bytes \<Rightarrow> nat \<Rightarrow> number" where
  "rd b i = (if i < length b then Some (uint (b ! i)) else None)"

definition wr :: "bytes \<Rightarrow> nat \<Rightarrow> int \<Rightarrow> bytes" where
  "wr b i x = b[i := word_of_int x]"

text \<open>
  JavaScript's operators on these numbers. \<^verbatim>\<open>+\<close> and \<^verbatim>\<open>*\<close> give \<^verbatim>\<open>NaN\<close> when an operand
  is \<^verbatim>\<open>undefined\<close> or \<^verbatim>\<open>NaN\<close>. The bitwise operators first take their left operand to a
  signed 32-bit integer (\<^verbatim>\<open>undefined\<close> to 0) and return one: \<^verbatim>\<open><<\<close> shifts left, \<^verbatim>\<open>>>\<close>
  shifts right keeping the sign, \<^verbatim>\<open>&\<close> is the bitwise and.
\<close>

definition js_add :: "number \<Rightarrow> number \<Rightarrow> number" where
  "js_add a b = (case (a, b) of (Some x, Some y) \<Rightarrow> Some (x + y) | _ \<Rightarrow> None)"

definition js_mul :: "number \<Rightarrow> number \<Rightarrow> number" where
  "js_mul a b = (case (a, b) of (Some x, Some y) \<Rightarrow> Some (x * y) | _ \<Rightarrow> None)"

definition ToInt32 :: "number \<Rightarrow> 32 word" where
  "ToInt32 a = (case a of None \<Rightarrow> 0 | Some x \<Rightarrow> word_of_int x)"

definition js_shl :: "number \<Rightarrow> nat \<Rightarrow> number" where
  "js_shl a n = Some (sint (push_bit (n mod 32) (ToInt32 a)))"

definition js_sar :: "int \<Rightarrow> nat \<Rightarrow> int" where
  "js_sar v n = sint (signed_drop_bit (n mod 32) (word_of_int v :: 32 word))"

definition js_and :: "int \<Rightarrow> int \<Rightarrow> int" where
  "js_and v m = sint ((word_of_int v :: 32 word) AND word_of_int m)"

subsection \<open>Fields\<close>

definition extractInt :: "bytes \<Rightarrow> nat \<Rightarrow> number" where
  "extractInt b st =
     js_add (js_add (js_add (js_mul (Some 16777216) (rd b (st + 3)))
                            (js_shl (rd b (st + 2)) 16))
                    (js_shl (rd b (st + 1)) 8))
            (rd b st)"

definition extractShort :: "bytes \<Rightarrow> nat \<Rightarrow> number" where
  "extractShort b st = js_add (js_shl (rd b (st + 1)) 8) (rd b st)"

definition extractByte :: "bytes \<Rightarrow> nat \<Rightarrow> number" where
  "extractByte b st = rd b st"

definition storeInt :: "int \<Rightarrow> bytes \<Rightarrow> nat \<Rightarrow> bytes" where
  "storeInt v b st =
     (let b = wr b st (js_and v 0xFF);
          b = wr b (st + 1) (js_and (js_sar v 8) 0xFF);
          b = wr b (st + 2) (js_and (js_sar v 16) 0xFF);
          b = wr b (st + 3) (js_and (js_sar v 24) 0xFF)
      in b)"

definition storeShort :: "int \<Rightarrow> bytes \<Rightarrow> nat \<Rightarrow> bytes" where
  "storeShort v b st =
     (let b = wr b st (js_and v 0xFF);
          b = wr b (st + 1) (js_and (js_sar v 8) 0xFF)
      in b)"

definition storeByte :: "int \<Rightarrow> bytes \<Rightarrow> nat \<Rightarrow> bytes" where
  "storeByte v b st = wr b st (js_and v 0xFF)"

text \<open>
  The table \<^verbatim>\<open>structs\<close>: a width code's length and its two functions (the source names
  them, and looks the names up in \<^verbatim>\<open>util\<close>). A code that is not in the table is \<open>None\<close>.
\<close>

datatype field = Field
  (len: nat)
  (put: "int \<Rightarrow> bytes \<Rightarrow> nat \<Rightarrow> bytes")
  (get: "bytes \<Rightarrow> nat \<Rightarrow> number")

definition structs :: "char \<Rightarrow> field option" where
  "structs c =
     (if c = CHR ''I'' then Some (Field 4 storeInt extractInt)
      else if c = CHR ''s'' then Some (Field 2 storeShort extractShort)
      else if c = CHR ''b'' then Some (Field 1 storeByte extractByte)
      else None)"

subsection \<open>Records\<close>

text \<open>
  Reading a property of \<^verbatim>\<open>util.structs[c]\<close> for a code that is not in the table throws a
  \<^verbatim>\<open>TypeError\<close>. A call gives the lines it wrote to the console and what it threw or
  returned; \<open>pack\<close> gives the buffer it leaves behind as well.
\<close>

datatype codec_error = TypeError

fun structlen_loop :: "string \<Rightarrow> nat \<Rightarrow> codec_error + nat" where
  "structlen_loop [] t = Inr t"
| "structlen_loop (c # s) t =
     (case structs c of None \<Rightarrow> Inl TypeError | Some f \<Rightarrow> structlen_loop s (t + len f))"

definition structlen :: "string \<Rightarrow> codec_error + nat" where
  "structlen s = structlen_loop s 0"

text \<open>
  The loop of \<^verbatim>\<open>pack\<close>, from the format's next code on, with the values still to be
  written. Once the lengths agree a value is there for every code; \<^verbatim>\<open>arguments[i+3]\<close> past
  the last value would be \<^verbatim>\<open>undefined\<close>, which the store functions write as 0.
\<close>

fun pack_loop :: "bytes \<Rightarrow> nat \<Rightarrow> string \<Rightarrow> int list \<Rightarrow> nat \<Rightarrow> (codec_error + nat) \<times> bytes" where
  "pack_loop buf offset [] args ctr = (Inr ctr, buf)"
| "pack_loop buf offset (c # format) args ctr =
     (case structs c of
        None \<Rightarrow> (Inl TypeError, buf)
      | Some f \<Rightarrow>
          pack_loop (put f (case args of [] \<Rightarrow> 0 | v # _ \<Rightarrow> v) buf (offset + ctr)) offset
            format (case args of [] \<Rightarrow> [] | _ # vs \<Rightarrow> vs) (ctr + len f))"

definition pack ::
  "bytes \<Rightarrow> nat \<Rightarrow> string \<Rightarrow> int list \<Rightarrow> string list \<times> (codec_error + nat) \<times> bytes" where
  "pack buf offset format args =
     (if length format \<noteq> length args then ([''Bad args to pack!''], Inr 0, buf)
      else
        (case structlen format of
           Inl e \<Rightarrow> ([], Inl e, buf)
         | Inr _ \<Rightarrow> ([], pack_loop buf offset format args 0)))"

text \<open>
  The loop of \<^verbatim>\<open>unpack\<close>; the result object is a map from property names to numbers.
  \<^verbatim>\<open>names[i]\<close> past the last name would be \<^verbatim>\<open>undefined\<close>, the property \<^verbatim>\<open>'undefined'\<close>.
\<close>

fun unpack_loop ::
  "bytes \<Rightarrow> nat \<Rightarrow> string \<Rightarrow> string list \<Rightarrow> nat \<Rightarrow> (string \<rightharpoonup> number)
     \<Rightarrow> codec_error + (string \<rightharpoonup> number)" where
  "unpack_loop buf offset [] names ctr result =
     Inr (result(''unpack_length'' \<mapsto> Some (int ctr)))"
| "unpack_loop buf offset (c # format) names ctr result =
     (case structs c of
        None \<Rightarrow> Inl TypeError
      | Some f \<Rightarrow>
          unpack_loop buf offset format (case names of [] \<Rightarrow> [] | _ # ns \<Rightarrow> ns) (ctr + len f)
            (result((case names of [] \<Rightarrow> ''undefined'' | n # _ \<Rightarrow> n)
               \<mapsto> get f buf (offset + ctr))))"

definition unpack ::
  "bytes \<Rightarrow> nat \<Rightarrow> string \<Rightarrow> string list
     \<Rightarrow> string list \<times> (codec_error + (string \<rightharpoonup> number))" where
  "unpack buf offset format names =
     (if length format \<noteq> length names then ([''Bad args to unpack!''], Inr Map.empty)
      else ([], unpack_loop buf offset format names 0 Map.empty))"

subsection \<open>Strings\<close>

text \<open>
  \<^verbatim>\<open>String.fromCharCode\<close> of a byte is the character with that code, and of \<^verbatim>\<open>undefined\<close>
  the character with code 0. \<^verbatim>\<open>!len\<close> holds when the parameter \<^verbatim>\<open>len\<close> (here \<open>len'\<close>) is not given and when it is 0.
\<close>

definition fromCharCode :: "number \<Rightarrow> char" where
  "fromCharCode x = (case x of None \<Rightarrow> char_of (0 :: int) | Some v \<Rightarrow> char_of v)"

function extractString_loop :: "bytes \<Rightarrow> nat \<Rightarrow> nat \<Rightarrow> string \<Rightarrow> string" where
  "extractString_loop bytes i len' s =
     (if i < len' then extractString_loop bytes (Suc i) len' (s @ [fromCharCode (rd bytes i)])
      else s)"
  by pat_completeness auto
termination
  by (relation "measure (\<lambda>(bytes, i, len', s). len' - i)") auto

declare extractString_loop.simps [simp del]

definition extractString :: "bytes \<Rightarrow> nat \<Rightarrow> nat option \<Rightarrow> string" where
  "extractString bytes start len' =
     (let len' = (case len' of None \<Rightarrow> length bytes
                  | Some l \<Rightarrow> if l = 0 then length bytes else l)
      in extractString_loop bytes start len' [])"

text \<open>The value range of a width code: \<open>0 \<le> v < 2 ^ (8 * len)\<close>.\<close>

definition in_range :: "char \<Rightarrow> int \<Rightarrow> bool" where
  "in_range c v = (case structs c of None \<Rightarrow> False | Some f \<Rightarrow> 0 \<le> v \<and> v < 2 ^ (8 * len f))"


section \<open>Properties of the simulator\<close>

subsection \<open>The timestamp check\<close>

lemma handler_cases: "h \<in> set (handlers parse) \<Longrightarrow> h = basal parse \<or> h = simpleSimulate"
  by (auto simp: handlers_def alarm_def bolus_def changeDeviceTime_def changeReservoir_def
      resume_def settings_def smbg_def suspend_def wizard_def fun_eq_iff)

lemma ensureTimestamp_throws:
  "currTimestamp s = Some t \<Longrightarrow> time e < t \<Longrightarrow>
   ensureTimestamp s e = (Inl (TimestampsOutOfOrder t e), s)"
  by (simp add: ensureTimestamp_def)

lemma ensureTimestamp_accepts:
  "currTimestamp s = None \<or> (\<exists>t. currTimestamp s = Some t \<and> t \<le> time e) \<Longrightarrow>
   ensureTimestamp s e = (Inr e, s\<lparr>currTimestamp := Some (time e)\<rparr>)"
  by (auto simp add: ensureTimestamp_def split: option.splits)

lemma handler_accepts:
  assumes "h \<in> set (handlers parse)" and "fst (h s e) = Inr ()"
  shows "currTimestamp (snd (h s e)) = Some (time e)"
  using handler_cases[OF assms(1)] assms(2)
  by (auto simp: basal_def simpleSimulate_def ensureTimestamp_def Let_def
      split: option.splits if_splits)

lemma handler_one_call:
  assumes "h \<in> set (handlers parse)"
  shows "(currTimestamp s = Some t \<and> time e < t \<longrightarrow>
            h s e = (Inl (TimestampsOutOfOrder t e), s))
       \<and> (currTimestamp s = None \<or> (\<exists>t. currTimestamp s = Some t \<and> t \<le> time e) \<longrightarrow>
            fst (h s e) = Inr ())"
  using handler_cases[OF assms]
  by (auto simp: basal_def simpleSimulate_def ensureTimestamp_throws ensureTimestamp_accepts
      Let_def split: option.splits)

text \<open>
  Claim C2. The last accepted timestamp is the time of the event of the last call that
  returned normally: each of the ten handlers records it when it accepts. Each handler,
  called with an event whose time is strictly less than it, throws the ordering error and
  leaves the simulator as it was: the log, the open basal and the last timestamp are
  unchanged, so the event is not appended. With no timestamp accepted yet (as in the state
  that \<^verbatim>\<open>make\<close> returns), or with a time that is not less than the last accepted one, the call
  returns normally. So after any handler has accepted an event \<open>e\<close>, any handler rejects an
  event that is earlier than \<open>e\<close> and accepts one that is not.
\<close>

theorem out_of_order_event_rejected:
  assumes "h \<in> set (handlers parse)" and "h' \<in> set (handlers parse)"
  shows "(currTimestamp s = Some t \<and> time e < t \<longrightarrow>
            h s e = (Inl (TimestampsOutOfOrder t e), s))
       \<and> (currTimestamp s = None \<or> (\<exists>t. currTimestamp s = Some t \<and> t \<le> time e) \<longrightarrow>
            fst (h s e) = Inr () \<and> currTimestamp (snd (h s e)) = Some (time e))
       \<and> fst (h make e) = Inr ()
       \<and> (fst (h s e) = Inr () \<and> time e' < time e \<longrightarrow>
            h' (snd (h s e)) e' = (Inl (TimestampsOutOfOrder (time e) e'), snd (h s e)))
       \<and> (fst (h s e) = Inr () \<and> time e \<le> time e' \<longrightarrow>
            fst (h' (snd (h s e)) e') = Inr ())"
proof -
  have rejected: "h s e = (Inl (TimestampsOutOfOrder t e), s)"
    if "currTimestamp s = Some t" "time e < t"
    using handler_one_call[OF assms(1), of s t e] that by simp
  have accepted: "fst (h s e) = Inr ()"
    if "currTimestamp s = None \<or> (\<exists>t. currTimestamp s = Some t \<and> t \<le> time e)"
    using handler_one_call[OF assms(1), of s _ e] that by simp
  have fresh: "fst (h make e) = Inr ()"
    using handler_one_call[OF assms(1), of make _ e] by (simp add: make_def)
  have next_rejected:
    "h' (snd (h s e)) e' = (Inl (TimestampsOutOfOrder (time e) e'), snd (h s e))"
    if "fst (h s e) = Inr ()" "time e' < time e"
    using handler_one_call[OF assms(2), of "snd (h s e)" "time e" e']
      handler_accepts[OF assms(1) that(1)] that(2)
    by simp
  have next_accepted: "fst (h' (snd (h s e)) e') = Inr ()"
    if "fst (h s e) = Inr ()" "time e \<le> time e'"
    using handler_one_call[OF assms(2), of "snd (h s e)" _ e']
      handler_accepts[OF assms(1) that(1)] that(2)
    by simp
  from rejected accepted fresh next_rejected next_accepted handler_accepts[OF assms(1)]
  show ?thesis by blast
qed

theorem out_of_order_event_rejected_witness:
  "bolus make (bolus_ex (JNum 2.5) None) =
     (Inr (), \<lparr>events = [bolus_ex (JNum 2.5) None], currBasal = None,
               currTimestamp = Some ''2014-01-01T00:30:00''\<rparr>)
   \<and> alarm (snd (bolus make (bolus_ex (JNum 2.5) None))) alarm_ex =
       (Inl (TimestampsOutOfOrder ''2014-01-01T00:30:00'' alarm_ex),
        \<lparr>events = [bolus_ex (JNum 2.5) None], currBasal = None,
         currTimestamp = Some ''2014-01-01T00:30:00''\<rparr>)
   \<and> fst (wizard (snd (bolus make (bolus_ex (JNum 2.5) None))) (wizard_ex None)) = Inr ()
   \<and> fst (basal parse_ex make basal_ex0) = Inr ()"
proof -
  have b: "bolus \<in> set (handlers parse_ex)"
    and a: "alarm \<in> set (handlers parse_ex)"
    and w: "wizard \<in> set (handlers parse_ex)"
    and p: "basal parse_ex \<in> set (handlers parse_ex)"
    by (simp_all add: handlers_def)
  have s1: "bolus make (bolus_ex (JNum 2.5) None) =
     (Inr (), \<lparr>events = [bolus_ex (JNum 2.5) None], currBasal = None,
               currTimestamp = Some ''2014-01-01T00:30:00''\<rparr>)"
    by (simp add: bolus_def simpleSimulate_def ensureTimestamp_def make_def bolus_ex_def)
  have t: "time alarm_ex < time (bolus_ex (JNum 2.5) None)"
    "time (bolus_ex (JNum 2.5) None) \<le> time (wizard_ex None)"
    "time (bolus_ex (JNum 2.5) None) = ''2014-01-01T00:30:00''"
    by (simp_all add: alarm_ex_def bolus_ex_def wizard_ex_def)
  from out_of_order_event_rejected[OF b a, of make _ "bolus_ex (JNum 2.5) None" alarm_ex]
    out_of_order_event_rejected[OF b w, of make _ "bolus_ex (JNum 2.5) None" "wizard_ex None"]
    out_of_order_event_rejected[OF p p, of make _ basal_ex0]
  show ?thesis
    unfolding s1 using t by simp
qed

subsection \<open>Closing a basal segment\<close>

lemma basal_with_open:
  assumes "currBasal s = Some ob"
    and "currTimestamp s = None \<or> (\<exists>t. currTimestamp s = Some t \<and> t \<le> time B)"
  shows "basal parse s B =
    (Inr (), \<lparr>events = events s @
        [Event (type ob) (time ob)
           (if duration ob = None then Some (parse (time B) - parse (time ob)) else duration ob)
           (Some ''Unknown'') (previous ob) (normal ob) (expectedNormal ob) (bolus_field ob)],
      currBasal = Some (Event (type B) (time B) (duration B) (scheduleName B)
        (Some (Event (type ob) (time ob)
           (if duration ob = None then Some (parse (time B) - parse (time ob)) else duration ob)
           (Some ''Unknown'') None (normal ob) (expectedNormal ob) (bolus_field ob)))
        (normal B) (expectedNormal B) (bolus_field B)),
      currTimestamp = Some (time B)\<rparr>)"
  using assms(1)
  by (simp add: basal_def ensureTimestamp_accepts[OF assms(2)] Let_def isAssigned_duration_def
      with_duration_def with_scheduleName_def done_builder_def set_previous_def omit_previous_def)

lemma basal_without_open:
  assumes "currBasal s = None"
    and "currTimestamp s = None \<or> (\<exists>t. currTimestamp s = Some t \<and> t \<le> time B)"
  shows "basal parse s B =
    (Inr (), \<lparr>events = events s, currBasal = Some B, currTimestamp = Some (time B)\<rparr>)"
  using assms(1)
  by (simp add: basal_def ensureTimestamp_accepts[OF assms(2)])

lemma basal_accepted:
  "fst (basal parse s B) = Inr () \<longleftrightarrow>
   currTimestamp s = None \<or> (\<exists>t. currTimestamp s = Some t \<and> t \<le> time B)"
  by (auto simp: basal_def ensureTimestamp_def Let_def split: option.splits)

lemma session_ex0:
  "basal parse_ex make basal_ex0 =
     (Inr (), \<lparr>events = [], currBasal = Some basal_ex0,
               currTimestamp = Some ''2014-01-01T00:00:00''\<rparr>)"
  by (simp add: basal_def ensureTimestamp_def make_def basal_ex0_def)

text \<open>
  Claim C1. Let a basal event \<open>B\<close> arrive whose time is not less than the last accepted
  timestamp. If a segment \<open>ob\<close> is open, the call appends one record to the log, the closed
  segment: it is \<open>ob\<close> with the schedule name \<^verbatim>\<open>Unknown\<close> and with the duration
  \<open>parse (time B) - parse (time ob)\<close> exactly when \<open>ob\<close> had no duration (a duration that was
  set is kept). The new open segment is \<open>B\<close> with a \<^verbatim>\<open>previous\<close> property, a copy of the
  closed segment without its own \<^verbatim>\<open>previous\<close>. If no segment is open, nothing is appended
  and the open segment becomes \<open>B\<close> as it is. In both cases the open segment is \<open>B\<close>.
\<close>

theorem basal_closes_open_segment:
  assumes "currTimestamp s = None \<or> (\<exists>t. currTimestamp s = Some t \<and> t \<le> time B)"
  shows "(currBasal s = None \<longrightarrow>
            basal parse s B =
              (Inr (), \<lparr>events = events s, currBasal = Some B, currTimestamp = Some (time B)\<rparr>))
       \<and> (\<forall>ob. currBasal s = Some ob \<longrightarrow>
            (\<exists>closed B'.
               basal parse s B =
                 (Inr (), \<lparr>events = events s @ [closed], currBasal = Some B',
                           currTimestamp = Some (time B)\<rparr>)
             \<and> duration closed =
                 (if duration ob = None then Some (parse (time B) - parse (time ob))
                  else duration ob)
             \<and> scheduleName closed = Some ''Unknown''
             \<and> type closed = type ob \<and> time closed = time ob \<and> previous closed = previous ob
             \<and> normal closed = normal ob \<and> expectedNormal closed = expectedNormal ob
             \<and> bolus_field closed = bolus_field ob
             \<and> same_but_previous B' B
             \<and> (\<exists>snapshot. previous B' = Some snapshot \<and> previous snapshot = None
                  \<and> same_but_previous snapshot closed)))"
proof (intro conjI impI allI)
  assume "currBasal s = None"
  then show "basal parse s B =
      (Inr (), \<lparr>events = events s, currBasal = Some B, currTimestamp = Some (time B)\<rparr>)"
    using assms by (rule basal_without_open)
next
  fix ob assume "currBasal s = Some ob"
  from basal_with_open[OF this assms, of parse]
  show "\<exists>closed B'.
               basal parse s B =
                 (Inr (), \<lparr>events = events s @ [closed], currBasal = Some B',
                           currTimestamp = Some (time B)\<rparr>)
             \<and> duration closed =
                 (if duration ob = None then Some (parse (time B) - parse (time ob))
                  else duration ob)
             \<and> scheduleName closed = Some ''Unknown''
             \<and> type closed = type ob \<and> time closed = time ob \<and> previous closed = previous ob
             \<and> normal closed = normal ob \<and> expectedNormal closed = expectedNormal ob
             \<and> bolus_field closed = bolus_field ob
             \<and> same_but_previous B' B
             \<and> (\<exists>snapshot. previous B' = Some snapshot \<and> previous snapshot = None
                  \<and> same_but_previous snapshot closed)"
    by (simp add: same_but_previous_def)
qed

theorem basal_closes_open_segment_witness:
  "(\<exists>closed B'.
      basal parse_ex (snd (basal parse_ex make basal_ex0)) basal_ex1 =
        (Inr (), \<lparr>events = [closed], currBasal = Some B',
                  currTimestamp = Some ''2014-01-01T00:30:00''\<rparr>)
      \<and> duration closed = Some 1800000 \<and> scheduleName closed = Some ''Unknown''
      \<and> time closed = ''2014-01-01T00:00:00'' \<and> previous closed = None
      \<and> same_but_previous B' basal_ex1
      \<and> (\<exists>snapshot. previous B' = Some snapshot \<and> previous snapshot = None
            \<and> same_but_previous snapshot closed))
   \<and> basal parse_ex make basal_ex0 =
        (Inr (), \<lparr>events = [], currBasal = Some basal_ex0,
                  currTimestamp = Some ''2014-01-01T00:00:00''\<rparr>)"
proof -
  let ?s = "\<lparr>events = [], currBasal = Some basal_ex0,
             currTimestamp = Some ''2014-01-01T00:00:00''\<rparr>"
  have ord: "currTimestamp ?s = None \<or> (\<exists>t. currTimestamp ?s = Some t \<and> t \<le> time basal_ex1)"
    by (simp add: basal_ex1_def)
  have ord0:
    "currTimestamp make = None \<or> (\<exists>t. currTimestamp make = Some t \<and> t \<le> time basal_ex0)"
    by (simp add: make_def)
  have ob: "currBasal ?s = Some basal_ex0" by simp
  have d: "duration basal_ex0 = None"
    "parse_ex ''2014-01-01T00:30:00'' - parse_ex ''2014-01-01T00:00:00'' = 1800000"
    "time basal_ex0 = ''2014-01-01T00:00:00''" "time basal_ex1 = ''2014-01-01T00:30:00''"
    "previous basal_ex0 = None"
    by (simp_all add: basal_ex0_def basal_ex1_def parse_ex_def)
  from basal_closes_open_segment[OF ord, of parse_ex, THEN conjunct2, rule_format, OF ob]
  have "\<exists>closed B'.
      basal parse_ex ?s basal_ex1 =
        (Inr (), \<lparr>events = [closed], currBasal = Some B',
                  currTimestamp = Some ''2014-01-01T00:30:00''\<rparr>)
      \<and> duration closed = Some 1800000 \<and> scheduleName closed = Some ''Unknown''
      \<and> time closed = ''2014-01-01T00:00:00'' \<and> previous closed = None
      \<and> same_but_previous B' basal_ex1
      \<and> (\<exists>snapshot. previous B' = Some snapshot \<and> previous snapshot = None
            \<and> same_but_previous snapshot closed)"
    unfolding d by clarsimp
  moreover from basal_closes_open_segment[OF ord0, of parse_ex, THEN conjunct1]
  have "basal parse_ex make basal_ex0 = (Inr (), ?s)"
    by (simp add: make_def d)
  ultimately show ?thesis by simp
qed

text \<open>
  Claim C9, as the code has it. The claim lets a schedule name that was set on the segment
  survive its closing; the handler assigns \<^verbatim>\<open>Unknown\<close> to every segment it closes. In the
  session below the first basal event carries the name \<^verbatim>\<open>Standard\<close>, and the closed segment
  in the log carries \<^verbatim>\<open>Unknown\<close>.
\<close>

theorem closing_overwrites_scheduleName:
  "scheduleName basal_ex0 = Some ''Standard''
   \<and> events (feed parse_ex make [Basal basal_ex0, Basal basal_ex1]) =
       [Event ''basal'' ''2014-01-01T00:00:00'' (Some 1800000) (Some ''Unknown'')
          None None None None]"
  unfolding feed.simps step.simps session_ex0 snd_conv
  by (simp add: basal_with_open basal_ex0_def basal_ex1_def parse_ex_def)

text \<open>
  Claim C9, amended. Every basal segment that the handler closes and appends to the log has
  the schedule name \<^verbatim>\<open>Unknown\<close>, whatever name it had, or did not have, while it was open.
\<close>

theorem closed_basal_scheduleName_Unknown:
  assumes "currBasal s = Some ob"
    and "currTimestamp s = None \<or> (\<exists>t. currTimestamp s = Some t \<and> t \<le> time B)"
  shows "\<exists>closed. events (snd (basal parse s B)) = events s @ [closed]
           \<and> scheduleName closed = Some ''Unknown''"
  by (simp add: basal_with_open[OF assms])

theorem closed_basal_scheduleName_Unknown_witness:
  "scheduleName basal_ex0 = Some ''Standard'' \<and>
   (\<exists>closed.
      events (snd (basal parse_ex (snd (basal parse_ex make basal_ex0)) basal_ex1)) = [closed]
      \<and> scheduleName closed = Some ''Unknown'')"
proof -
  let ?s = "\<lparr>events = [], currBasal = Some basal_ex0,
             currTimestamp = Some ''2014-01-01T00:00:00''\<rparr>"
  have ob: "currBasal ?s = Some basal_ex0" by simp
  have ord: "currTimestamp ?s = None \<or> (\<exists>t. currTimestamp ?s = Some t \<and> t \<le> time basal_ex1)"
    by (simp add: basal_ex1_def)
  from closed_basal_scheduleName_Unknown[OF ob ord, of parse_ex] show ?thesis
    unfolding session_ex0 snd_conv by (simp add: basal_ex0_def)
qed

subsection \<open>Retrieval\<close>

lemma keep_iff:
  "keep e \<longleftrightarrow>
     \<not> (type e = ''bolus'' \<and> empty_bolus e) \<and>
     \<not> (type e = ''wizard'' \<and> (\<exists>b. bolus_field e = Some b \<and> empty_bolus b))"
proof -
  have z: "strict_eq_zero (read_prop (normal x)) \<longleftrightarrow> normal x = Some (JNum 0)" for x
    by (cases "normal x"; simp add: read_prop_def) (rename_tac v, case_tac v; simp)
  have t: "\<not> truthy (read_prop (expectedNormal x)) \<longleftrightarrow>
        (case expectedNormal x of None \<Rightarrow> True | Some v \<Rightarrow> \<not> truthy v)" for x
    by (simp add: read_prop_def split: option.splits)
  show ?thesis
    by (auto simp: keep_def empty_bolus_def z t split: option.splits)
qed

text \<open>
  Claim C3, as the code has it. The claim drops a bolus only when \<^verbatim>\<open>expectedNormal\<close> is
  absent, and keeps one whose \<^verbatim>\<open>expectedNormal\<close> is set. The bolus below has \<^verbatim>\<open>normal\<close> 0
  and an \<^verbatim>\<open>expectedNormal\<close> property, with the value 0; the handler logs it, and
  \<^verbatim>\<open>getEvents\<close> drops it.
\<close>

theorem getEvents_drops_bolus_with_zero_expectedNormal:
  "expectedNormal (bolus_ex (JNum 0) (Some (JNum 0))) \<noteq> None
   \<and> events (snd (bolus make (bolus_ex (JNum 0) (Some (JNum 0)))))
       = [bolus_ex (JNum 0) (Some (JNum 0))]
   \<and> getEvents (snd (bolus make (bolus_ex (JNum 0) (Some (JNum 0))))) = []"
  by (simp add: bolus_def simpleSimulate_def ensureTimestamp_def make_def getEvents_def keep_def
      bolus_ex_def read_prop_def)

text \<open>
  Claim C3, amended. \<^verbatim>\<open>getEvents\<close> returns the records of the log except the bolus records
  whose \<^verbatim>\<open>normal\<close> is 0 and whose \<^verbatim>\<open>expectedNormal\<close> is absent or falsy, and except the
  wizard records that embed such a bolus. A wizard without an embedded bolus, a bolus with a
  \<^verbatim>\<open>normal\<close> other than 0, a bolus with a truthy \<^verbatim>\<open>expectedNormal\<close> and the records of every
  other kind are kept.
\<close>

theorem getEvents_filter:
  "set (getEvents s) =
     {e \<in> set (events s).
        \<not> (type e = ''bolus'' \<and> empty_bolus e) \<and>
        \<not> (type e = ''wizard'' \<and> (\<exists>b. bolus_field e = Some b \<and> empty_bolus b))}"
  by (auto simp: getEvents_def keep_iff)

theorem getEvents_filter_witness:
  "bolus_ex (JNum 0) None
     \<notin> set (getEvents \<lparr>events = log_ex, currBasal = None, currTimestamp = None\<rparr>)
   \<and> bolus_ex (JNum 0) (Some (JNum 2.5))
     \<in> set (getEvents \<lparr>events = log_ex, currBasal = None, currTimestamp = None\<rparr>)
   \<and> bolus_ex (JNum 2.5) None
     \<in> set (getEvents \<lparr>events = log_ex, currBasal = None, currTimestamp = None\<rparr>)
   \<and> wizard_ex None
     \<in> set (getEvents \<lparr>events = log_ex, currBasal = None, currTimestamp = None\<rparr>)
   \<and> wizard_ex (Some (bolus_ex (JNum 0) None))
     \<notin> set (getEvents \<lparr>events = log_ex, currBasal = None, currTimestamp = None\<rparr>)
   \<and> alarm_ex
     \<in> set (getEvents \<lparr>events = log_ex, currBasal = None, currTimestamp = None\<rparr>)"
  unfolding getEvents_filter[of "\<lparr>events = log_ex, currBasal = None, currTimestamp = None\<rparr>"]
  by (simp add: log_ex_def bolus_ex_def wizard_ex_def alarm_ex_def empty_bolus_def)

text \<open>
  Claim C10. Whether \<^verbatim>\<open>expectedNormal\<close> is there is tested by its truth value: a bolus record
  with \<^verbatim>\<open>normal\<close> 0 whose \<^verbatim>\<open>expectedNormal\<close> is present and falsy (0, for one) is not among
  the records \<^verbatim>\<open>getEvents\<close> returns, and neither is a wizard record that embeds such a bolus.
\<close>

theorem falsy_expectedNormal_dropped:
  assumes "normal b = Some (JNum 0)" and "expectedNormal b = Some v" and "\<not> truthy v"
  shows "(type b = ''bolus'' \<longrightarrow> b \<notin> set (getEvents s))
       \<and> (type w = ''wizard'' \<and> bolus_field w = Some b \<longrightarrow> w \<notin> set (getEvents s))"
  using assms by (auto simp: getEvents_def keep_iff empty_bolus_def)

theorem falsy_expectedNormal_dropped_witness:
  "bolus_ex (JNum 0) (Some (JNum 0)) \<notin>
     set (getEvents
       \<lparr>events = [bolus_ex (JNum 0) (Some (JNum 0)),
                  wizard_ex (Some (bolus_ex (JNum 0) (Some (JNum 0))))],
        currBasal = None, currTimestamp = None\<rparr>)
   \<and> wizard_ex (Some (bolus_ex (JNum 0) (Some (JNum 0)))) \<notin>
     set (getEvents
       \<lparr>events = [bolus_ex (JNum 0) (Some (JNum 0)),
                  wizard_ex (Some (bolus_ex (JNum 0) (Some (JNum 0))))],
        currBasal = None, currTimestamp = None\<rparr>)"
proof -
  have n: "normal (bolus_ex (JNum 0) (Some (JNum 0))) = Some (JNum 0)"
    and x: "expectedNormal (bolus_ex (JNum 0) (Some (JNum 0))) = Some (JNum 0)"
    and f: "\<not> truthy (JNum 0)"
    by (simp_all add: bolus_ex_def)
  from falsy_expectedNormal_dropped[OF n x f,
      of _ "wizard_ex (Some (bolus_ex (JNum 0) (Some (JNum 0))))"]
  show ?thesis
    by (simp add: bolus_ex_def wizard_ex_def)
qed

text \<open>
  Claim C4. What \<^verbatim>\<open>getEvents\<close> returns is the filtered log, stably sorted by time: its times
  are in non-decreasing order, it has the records that the filter keeps, each as often as the
  log has it, and the records of any one time come in the order they have in the log.
\<close>

theorem getEvents_stable_sort:
  "sorted (map time (getEvents s))
   \<and> mset (getEvents s) = mset (filter keep (events s))
   \<and> (\<forall>t. filter (\<lambda>e. time e = t) (getEvents s)
          = filter (\<lambda>e. time e = t) (filter keep (events s)))"
  by (simp add: getEvents_def sort_key_stable)

theorem getEvents_stable_sort_witness:
  "getEvents \<lparr>events = log_ex, currBasal = None, currTimestamp = None\<rparr> =
     [alarm_ex, bolus_ex (JNum 0) (Some (JNum 2.5)), bolus_ex (JNum 2.5) None, wizard_ex None]
   \<and> sorted (map time (getEvents \<lparr>events = log_ex, currBasal = None, currTimestamp = None\<rparr>))"
  using getEvents_stable_sort[of "\<lparr>events = log_ex, currBasal = None, currTimestamp = None\<rparr>"]
  by (simp add: getEvents_def keep_def log_ex_def bolus_ex_def wizard_ex_def alarm_ex_def
      read_prop_def)

section \<open>Properties of the simulator on a store\<close>

subsection \<open>The handlers\<close>

lemma change_object_simps [simp]:
  "next_addr (change_object s a f) = next_addr s"
  "events_at (change_object s a f) = events_at s"
  "currBasal_at (change_object s a f) = currBasal_at s"
  "currTimestamp_at (change_object s a f) = currTimestamp_at s"
  "objects (change_object s a f) b = (if b = a then map_option f (objects s a) else objects s b)"
  by (auto simp: change_object_def split: option.splits)




subsection \<open>What holds in every session\<close>












subsection \<open>The two models agree\<close>

lemma objects_of_simps [simp]:
  "objects_of s [] = []"
  "objects_of s (a # as) = (case objects s a of None \<Rightarrow> [] | Some e \<Rightarrow> [e]) @ objects_of s as"
  "objects_of s (as @ bs) = objects_of s as @ objects_of s bs"
  by (simp_all add: objects_of_def)

lemma objects_of_fields [simp]:
  "objects_of (s\<lparr>next_addr := n\<rparr>) as = objects_of s as"
  "objects_of (s\<lparr>events_at := l\<rparr>) as = objects_of s as"
  "objects_of (s\<lparr>currBasal_at := c\<rparr>) as = objects_of s as"
  "objects_of (s\<lparr>currTimestamp_at := t\<rparr>) as = objects_of s as"
  by (simp_all add: objects_of_def)















subsection \<open>The trailing open segment\<close>




section \<open>Properties of the codec\<close>

subsection \<open>Bytes of a number\<close>

lemma and_255_word: "(w :: 32 word) AND 0xFF = take_bit 8 w"
  by (simp add: take_bit_eq_mask mask_eq_exp_minus_1)

lemma sint_take_bit_8: "sint (take_bit 8 (w :: 32 word)) = take_bit 8 (uint w)"
  by (rule bit_eqI) (auto simp add: bit_sint_iff bit_take_bit_iff bit_uint_iff)

lemma take_bit_8_sdrop:
  "n \<le> 24 \<Longrightarrow> take_bit 8 (signed_drop_bit n (w :: 32 word)) = take_bit 8 (drop_bit n w)"
  by (rule bit_word_eqI) (auto simp add: bit_simps)

lemma take_bit_8_drop_word_of_int:
  "n \<le> 24 \<Longrightarrow> take_bit 8 (uint (drop_bit n (word_of_int v :: 32 word))) = take_bit 8 (drop_bit n v)"
  by (rule bit_eqI) (auto simp add: bit_simps bit_uint_iff)

lemma js_and_255: "js_and v 0xFF = v mod 256"
proof -
  have "js_and v 0xFF = take_bit 8 (uint (drop_bit 0 (word_of_int v :: 32 word)))"
    by (simp add: js_and_def and_255_word sint_take_bit_8)
  also have "\<dots> = take_bit 8 (drop_bit 0 v)"
    by (rule take_bit_8_drop_word_of_int) simp
  finally show ?thesis by (simp add: take_bit_eq_mod)
qed

lemma js_and_sar:
  assumes "n \<le> 24"
  shows "js_and (js_sar v n) 0xFF = (v div 2 ^ n) mod 256"
proof -
  from assms have n: "n mod 32 = n" by simp
  have "js_and (js_sar v n) 0xFF = take_bit 8 (uint (drop_bit n (word_of_int v :: 32 word)))"
    by (simp add: js_and_def js_sar_def n and_255_word sint_take_bit_8 take_bit_8_sdrop[OF assms])
  also have "\<dots> = take_bit 8 (drop_bit n v)"
    using assms by (rule take_bit_8_drop_word_of_int)
  finally show ?thesis by (simp add: take_bit_eq_mod drop_bit_eq_div)
qed

lemma js_shl_byte:
  assumes "0 \<le> x" "x < 256" "n \<le> 16"
  shows "js_shl (Some x) n = Some (x * 2 ^ n)"
proof -
  from assms have n: "n mod 32 = n" by simp
  have "sint (push_bit n (word_of_int x :: 32 word)) = push_bit n x"
  proof (rule bit_eqI)
    fix i
    from assms have x: "take_bit 8 x = x" by (simp add: take_bit_int_eq_self)
    have hi: "j < 8" if "bit x j" for j
    proof (rule ccontr)
      assume "\<not> j < 8"
      then have "bit (take_bit 8 x) j = False" by (simp add: bit_take_bit_iff)
      with x that show False by simp
    qed
    show "bit (sint (push_bit n (word_of_int x :: 32 word))) i = bit (push_bit n x) i"
      using assms(3) by (auto simp add: bit_sint_iff bit_simps not_le dest: hi)
  qed
  then show ?thesis by (simp add: js_shl_def ToInt32_def n push_bit_eq_mult)
qed

subsection \<open>One field\<close>

lemma length_wr [simp]: "length (wr b i x) = length b"
  by (simp add: wr_def)

lemma rd_wr_same: "i < length b \<Longrightarrow> rd (wr b i x) i = Some (x mod 256)"
  by (simp add: rd_def wr_def uint_word_of_int)

lemma rd_wr_other: "i \<noteq> j \<Longrightarrow> rd (wr b i x) j = rd b j"
  by (simp add: rd_def wr_def)

lemma rd_cong: "length b = length b' \<Longrightarrow> b ! i = b' ! i \<Longrightarrow> rd b i = rd b' i"
  by (simp add: rd_def)

lemma bytes_of_int32:
  "16777216 * (v div 2 ^ 24 mod 256) + (v div 2 ^ 16 mod 256) * 2 ^ 16
     + (v div 2 ^ 8 mod 256) * 2 ^ 8 + v mod 256 = v mod 2 ^ 32" for v :: int
proof -
  have a: "v mod 2 ^ 32 = 2 ^ 8 * (v div 2 ^ 8 mod 2 ^ 24) + v mod 2 ^ 8"
    using mod_mult2_eq'[of v "2 ^ 8" "2 ^ 24"] by simp
  have b: "v div 2 ^ 8 mod 2 ^ 24 = 2 ^ 8 * (v div 2 ^ 8 div 2 ^ 8 mod 2 ^ 16) + v div 2 ^ 8 mod 2 ^ 8"
    using mod_mult2_eq'[of "v div 2 ^ 8" "2 ^ 8" "2 ^ 16"] by simp
  have c: "v div 2 ^ 16 mod 2 ^ 16 = 2 ^ 8 * (v div 2 ^ 16 div 2 ^ 8 mod 2 ^ 8) + v div 2 ^ 16 mod 2 ^ 8"
    using mod_mult2_eq'[of "v div 2 ^ 16" "2 ^ 8" "2 ^ 8"] by simp
  have d: "v div 2 ^ 8 div 2 ^ 8 = v div 2 ^ 16" "v div 2 ^ 16 div 2 ^ 8 = v div 2 ^ 24"
    by (simp_all add: div_mult2_eq[symmetric])
  show ?thesis
    unfolding a b c d by simp
qed

lemma bytes_of_int16:
  "(v div 2 ^ 8 mod 256) * 2 ^ 8 + v mod 256 = v mod 2 ^ 16" for v :: int
  using mod_mult2_eq'[of v "2 ^ 8" "2 ^ 8"] by simp

lemma js_sar_mod:
  assumes "n \<le> 24"
  shows "js_sar v n mod 256 = v div 2 ^ n mod 256"
proof -
  have "js_sar v n mod 256 = js_and (js_sar v n) 0xFF"
    by (rule js_and_255[symmetric])
  also have "\<dots> = v div 2 ^ n mod 256"
    using assms by (rule js_and_sar)
  finally show ?thesis .
qed

lemma extractInt_storeInt:
  assumes "st + 4 \<le> length b"
  shows "extractInt (storeInt v b st) st = Some (v mod 2 ^ 32)"
proof -
  let ?b = "storeInt v b st"
  from assms have
    r0: "rd ?b st = Some (v mod 256)" and
    r1: "rd ?b (st + 1) = Some (v div 2 ^ 8 mod 256)" and
    r2: "rd ?b (st + 2) = Some (v div 2 ^ 16 mod 256)" and
    r3: "rd ?b (st + 3) = Some (v div 2 ^ 24 mod 256)"
    by (simp_all add: storeInt_def Let_def rd_wr_same rd_wr_other js_and_255 js_sar_mod)
  have "extractInt ?b st =
      Some (16777216 * (v div 2 ^ 24 mod 256) + (v div 2 ^ 16 mod 256) * 2 ^ 16
        + (v div 2 ^ 8 mod 256) * 2 ^ 8 + v mod 256)"
    unfolding extractInt_def r0 r1 r2 r3
    by (simp add: js_shl_byte js_add_def js_mul_def)
  then show ?thesis by (simp only: bytes_of_int32)
qed

lemma extractShort_storeShort:
  assumes "st + 2 \<le> length b"
  shows "extractShort (storeShort v b st) st = Some (v mod 2 ^ 16)"
proof -
  let ?b = "storeShort v b st"
  from assms have
    r0: "rd ?b st = Some (v mod 256)" and
    r1: "rd ?b (st + 1) = Some (v div 2 ^ 8 mod 256)"
    by (simp_all add: storeShort_def Let_def rd_wr_same rd_wr_other js_and_255 js_sar_mod)
  have "extractShort ?b st = Some ((v div 2 ^ 8 mod 256) * 2 ^ 8 + v mod 256)"
    unfolding extractShort_def r0 r1
    by (simp add: js_shl_byte js_add_def)
  then show ?thesis by (simp only: bytes_of_int16)
qed

lemma extractByte_storeByte:
  assumes "st + 1 \<le> length b"
  shows "extractByte (storeByte v b st) st = Some (v mod 2 ^ 8)"
  using assms by (simp add: extractByte_def storeByte_def rd_wr_same js_and_255)

lemma structs_cases:
  assumes "structs c = Some f"
  obtains "c = CHR ''I''" "f = Field 4 storeInt extractInt"
  | "c = CHR ''s''" "f = Field 2 storeShort extractShort"
  | "c = CHR ''b''" "f = Field 1 storeByte extractByte"
  using assms by (auto simp: structs_def split: if_splits)

lemma get_put:
  assumes "structs c = Some f" and "st + len f \<le> length b"
  shows "get f (put f v b st) st = Some (v mod 2 ^ (8 * len f))"
  using assms
  by (cases rule: structs_cases)
    (simp_all add: extractInt_storeInt extractShort_storeShort extractByte_storeByte)

lemma length_put:
  assumes "structs c = Some f"
  shows "length (put f v b st) = length b"
  using assms
  by (cases rule: structs_cases) (simp_all add: storeInt_def storeShort_def storeByte_def Let_def)

lemma put_frame:
  assumes "structs c = Some f" and "i < st \<or> st + len f \<le> i"
  shows "put f v b st ! i = b ! i"
  using assms
  by (cases rule: structs_cases)
    (auto simp add: storeInt_def storeShort_def storeByte_def Let_def wr_def)

lemma get_cong:
  assumes "structs c = Some f" and "length b = length b'"
    and "\<forall>i. st \<le> i \<and> i < st + len f \<longrightarrow> b ! i = b' ! i"
  shows "get f b st = get f b' st"
  using assms
  by (cases rule: structs_cases)
    (simp_all add: extractInt_def extractShort_def extractByte_def rd_def)

subsection \<open>A record\<close>

lemma in_range_structs:
  assumes "in_range c v"
  obtains f where "structs c = Some f" "0 \<le> v" "v < 2 ^ (8 * len f)"
  using assms by (auto simp: in_range_def split: option.splits)

lemma structlen_loop_Inr:
  "structlen_loop s t = Inr n \<Longrightarrow> t \<le> n"
proof (induction s arbitrary: t)
  case Nil
  then show ?case by simp
next
  case (Cons c s)
  then show ?case by (fastforce split: option.splits)
qed

text \<open>
  The loop of \<^verbatim>\<open>pack\<close> keeps the length of the buffer and the bytes below the field it
  starts at.
\<close>

lemma pack_loop_frame:
  assumes "list_all2 in_range format vs"
  shows "length (snd (pack_loop buf offset format vs ctr)) = length buf
       \<and> (\<forall>i < offset + ctr. snd (pack_loop buf offset format vs ctr) ! i = buf ! i)"
  using assms
proof (induction format vs arbitrary: buf ctr rule: list_all2_induct)
  case Nil
  then show ?case by simp
next
  case (Cons c format v vs)
  from Cons.hyps(1) obtain f where f: "structs c = Some f"
    by (rule in_range_structs)
  let ?b = "put f v buf (offset + ctr)"
  from Cons.IH[of ?b "ctr + len f"]
  have "length (snd (pack_loop ?b offset format vs (ctr + len f))) = length ?b"
    and "\<forall>i < offset + (ctr + len f). snd (pack_loop ?b offset format vs (ctr + len f)) ! i = ?b ! i"
    by simp_all
  then show ?case
    using f by (simp add: length_put[OF f] put_frame[OF f])
qed

lemma pack_loop_result:
  assumes "list_all2 in_range format vs" and "structlen_loop format ctr = Inr n"
  shows "fst (pack_loop buf offset format vs ctr) = Inr n"
  using assms
proof (induction format vs arbitrary: buf ctr rule: list_all2_induct)
  case Nil
  then show ?case by simp
next
  case (Cons c format v vs)
  from Cons.hyps(1) obtain f where f: "structs c = Some f"
    by (rule in_range_structs)
  from Cons.prems f have "structlen_loop format (ctr + len f) = Inr n" by simp
  from Cons.IH[OF this] show ?case using f by simp
qed

lemma unpack_pack_loop:
  assumes "list_all2 in_range format vs" and "length names = length format"
    and "structlen_loop format ctr = Inr n" and "offset + n \<le> length buf"
  shows "unpack_loop (snd (pack_loop buf offset format vs ctr)) offset format names ctr result =
           Inr (result(names [\<mapsto>] map Some vs, ''unpack_length'' \<mapsto> Some (int n)))"
  using assms
proof (induction format vs arbitrary: buf ctr names result rule: list_all2_induct)
  case Nil
  from Nil(1) have "names = []" by simp
  moreover from Nil(2) have "ctr = n" by simp
  ultimately show ?case
    by (simp only: pack_loop.simps unpack_loop.simps snd_conv list.map map_upds_Nil1)
next
  case (Cons c format v vs)
  from Cons.hyps(1) obtain f where f: "structs c = Some f"
    and v: "0 \<le> v" "v < 2 ^ (8 * len f)"
    by (rule in_range_structs)
  from Cons.prems(1) obtain m ns where names: "names = m # ns" and ns: "length ns = length format"
    by (cases names) simp_all
  let ?b = "put f v buf (offset + ctr)"
  let ?bF = "snd (pack_loop ?b offset format vs (ctr + len f))"
  from Cons.prems(2) f have sl: "structlen_loop format (ctr + len f) = Inr n" by simp
  then have le: "ctr + len f \<le> n" by (rule structlen_loop_Inr)
  with Cons.prems(3) have fits: "offset + ctr + len f \<le> length buf" by simp
  from pack_loop_frame[OF Cons.hyps(2), of ?b offset "ctr + len f"]
  have len: "length ?bF = length ?b"
    and same: "\<forall>i < offset + (ctr + len f). ?bF ! i = ?b ! i"
    by simp_all
  have "get f ?bF (offset + ctr) = get f ?b (offset + ctr)"
    using f len same by (intro get_cong) simp_all
  also have "\<dots> = Some (v mod 2 ^ (8 * len f))"
    using f fits by (rule get_put)
  also have "v mod 2 ^ (8 * len f) = v"
    using v by (rule mod_pos_pos_trivial)
  finally have g: "get f ?bF (offset + ctr) = Some v" .
  from Cons.prems(3) have fits': "offset + n \<le> length ?b"
    by (simp add: length_put[OF f])
  have "unpack_loop (snd (pack_loop buf offset (c # format) (v # vs) ctr)) offset (c # format)
          names ctr result =
        unpack_loop ?bF offset format ns (ctr + len f) (result(m \<mapsto> Some v))"
    by (simp only: names pack_loop.simps unpack_loop.simps f option.case list.case g)
  also have "\<dots> = Inr (result(m \<mapsto> Some v, ns [\<mapsto>] map Some vs,
                           ''unpack_length'' \<mapsto> Some (int n)))"
    by (rule Cons.IH[OF ns sl fits'])
  finally show ?case
    by (simp only: names list.map map_upds_Cons)
qed

text \<open>
  Claim C5. Let every value lie in the range of its width code (\<open>0 \<le> v < 2 ^ 32\<close> for
  \<^verbatim>\<open>I\<close>, \<open>2 ^ 16\<close> for \<^verbatim>\<open>s\<close>, \<open>2 ^ 8\<close> for \<^verbatim>\<open>b\<close>), let there be a name for every code
  and let the record lie within the buffer. Then \<^verbatim>\<open>pack\<close> returns the record's length, and
  \<^verbatim>\<open>unpack\<close> of the buffer it leaves gives every name the value that was packed, unchanged
  and unsigned, also for a 4-byte value from \<open>2 ^ 31\<close> on; \<^verbatim>\<open>unpack_length\<close> is the
  record's length. (Of two equal names the later one wins, as in the object.)
\<close>

theorem pack_unpack_roundtrip:
  assumes "list_all2 in_range format vs" and "length names = length format"
    and "structlen format = Inr n" and "offset + n \<le> length buf"
  shows "\<exists>buf'. pack buf offset format vs = ([], Inr n, buf')
           \<and> unpack buf' offset format names =
               ([], Inr (Map.empty(names [\<mapsto>] map Some vs,
                                   ''unpack_length'' \<mapsto> Some (int n))))"
proof -
  from assms(1) have l: "length format = length vs"
    by (rule list_all2_lengthD)
  from assms(3) have sl: "structlen_loop format 0 = Inr n"
    by (simp add: structlen_def)
  have "pack buf offset format vs = ([], pack_loop buf offset format vs 0)"
    using l assms(3) by (simp add: pack_def)
  also have "\<dots> = ([], Inr n, snd (pack_loop buf offset format vs 0))"
    using pack_loop_result[OF assms(1) sl, of buf offset] by (simp add: prod_eq_iff)
  finally have p:
    "pack buf offset format vs = ([], Inr n, snd (pack_loop buf offset format vs 0))" .
  have "unpack (snd (pack_loop buf offset format vs 0)) offset format names =
      ([], Inr (Map.empty(names [\<mapsto>] map Some vs, ''unpack_length'' \<mapsto> Some (int n))))"
    using assms(2) unpack_pack_loop[OF assms(1,2) sl assms(4), of Map.empty]
    by (simp add: unpack_def)
  with p show ?thesis by blast
qed

theorem pack_unpack_roundtrip_witness:
  "\<exists>buf'. pack [0, 0, 0, 0, 0, 0, 0, 0] 1 ''Isb'' [3000000000, 513, 7] = ([], Inr 7, buf')
     \<and> unpack buf' 1 ''Isb'' [''a'', ''b'', ''c''] =
         ([], Inr [''a'' \<mapsto> Some 3000000000, ''b'' \<mapsto> Some 513, ''c'' \<mapsto> Some 7,
                   ''unpack_length'' \<mapsto> Some 7])"
proof -
  have r: "list_all2 in_range ''Isb'' [3000000000, 513, 7]"
    by (simp add: in_range_def structs_def)
  have n: "length [''a'', ''b'', ''c''] = length ''Isb''" by simp
  have s: "structlen ''Isb'' = Inr 7" by (simp add: structlen_def structs_def)
  have b: "1 + 7 \<le> length [0, 0, 0, 0, 0, 0, 0, 0 :: 8 word]" by simp
  from pack_unpack_roundtrip[OF r n s b] show ?thesis by simp
qed

text \<open>
  Claim C6, as the code has it. The claim has both calls abort with an error when the
  lengths differ. \<^verbatim>\<open>pack\<close> with a code and no value returns 0, and \<^verbatim>\<open>unpack\<close> with a code
  and no name returns an empty object; each writes a line to the console and throws nothing.
\<close>

theorem arity_mismatch_returns_normally:
  "pack [0, 0, 0, 0] 0 ''I'' [] = ([''Bad args to pack!''], Inr 0, [0, 0, 0, 0])
   \<and> unpack [1, 2, 3, 4] 0 ''I'' [] = ([''Bad args to unpack!''], Inr Map.empty)"
  by (simp add: pack_def unpack_def)

text \<open>
  Claim C6, amended. When the format's length differs from the number of values, \<^verbatim>\<open>pack\<close>
  writes \<^verbatim>\<open>Bad args to pack!\<close> to the console and returns 0, and the buffer is as it was.
  When it differs from the number of names, \<^verbatim>\<open>unpack\<close> writes \<^verbatim>\<open>Bad args to unpack!\<close> and
  returns an object without properties. Neither call throws.
\<close>

theorem arity_mismatch_logs_and_returns_empty:
  "(length format \<noteq> length args \<longrightarrow>
      pack buf offset format args = ([''Bad args to pack!''], Inr 0, buf))
   \<and> (length format \<noteq> length names \<longrightarrow>
      unpack buf offset format names = ([''Bad args to unpack!''], Inr Map.empty))"
  by (simp add: pack_def unpack_def)

theorem arity_mismatch_logs_and_returns_empty_witness:
  "pack [0, 0, 0, 0] 0 ''Is'' [1] = ([''Bad args to pack!''], Inr 0, [0, 0, 0, 0])
   \<and> unpack [1, 2, 3, 4] 0 ''b'' [''x'', ''y''] = ([''Bad args to unpack!''], Inr Map.empty)"
  using arity_mismatch_logs_and_returns_empty[of "''Is''" "[1]" "[0, 0, 0, 0]" 0 "[]"]
    arity_mismatch_logs_and_returns_empty[of "''b''" "[]" "[1, 2, 3, 4]" 0 "[''x'', ''y'']"]
  by simp

subsection \<open>Strings\<close>

lemma extractString_loop_eq:
  "extractString_loop bytes i n s = s @ map (\<lambda>j. fromCharCode (rd bytes j)) [i..<n]"
proof (induction bytes i n s rule: extractString_loop.induct)
  case (1 bytes i n s)
  show ?case
  proof (cases "i < n")
    case True
    with "1" show ?thesis
      by (subst extractString_loop.simps) (simp add: upt_conv_Cons)
  next
    case False
    then show ?thesis
      by (subst extractString_loop.simps) simp
  qed
qed

lemma extractString_eq:
  "extractString bytes start (Some n) =
     map (\<lambda>j. fromCharCode (rd bytes j)) [start..<(if n = 0 then length bytes else n)]"
  "extractString bytes start None = map (\<lambda>j. fromCharCode (rd bytes j)) [start..<length bytes]"
  by (simp_all add: extractString_def extractString_loop_eq)

lemma char_of_66: "char_of (66 :: int) = CHR ''B''"
  by (simp add: char_of_def)

text \<open>
  Claim C7, on the code. The loop runs while \<open>i < len\<close>, from \<open>start\<close>: the third argument is
  where the string ends, not how long it is. From the bytes of \<^verbatim>\<open>ABCD\<close>, with \<open>start\<close> 1 and
  \<open>len\<close> 2, the claim expects the two characters \<^verbatim>\<open>BC\<close>; the code returns \<^verbatim>\<open>B\<close>.
\<close>

theorem extractString_len_is_end_index:
  "extractString [65, 66, 67, 68] 1 (Some 2) = ''B''
   \<and> length (extractString [65, 66, 67, 68] 1 (Some 2)) \<noteq> 2"
  by (simp add: extractString_eq rd_def fromCharCode_def upt_conv_Cons char_of_66)

end
